theory Spec2Isabelle
  imports Main "HOL-Library.Word" "HOL-Library.Signed_Division"
begin

section \<open>Signed integral values\<close>

text \<open>
  A value of a signed integral type \<open>T\<close> of \<open>N\<close> bits is a word of type \<open>'a word\<close>
  with \<open>LENGTH('a) = N\<close>; \<open>sint\<close> reads it in two's complement, \<open>uint\<close> reads the same
  bit pattern as a value of the unsigned counterpart \<open>U = std::make_unsigned_t<T>\<close>.
  Arithmetic is modelled at the width of \<open>T\<close> itself, which is where C++ evaluates it
  for \<open>int\<close>, \<open>long\<close> and \<open>long long\<close>. Operands of a narrower type (\<open>signed char\<close>,
  \<open>short\<close>) are promoted to \<open>int\<close> before a built-in operator is applied, so that a
  result which \<open>T\<close> cannot represent may still be representable where it is computed;
  the wrapped sums and differences and the comparisons come out the same. Where a
  statement below rests on a built-in operator overflowing, it is made for \<open>int\<close>.
\<close>

definition representable :: "'a::len itself \<Rightarrow> int \<Rightarrow> bool" where
  "representable t r \<longleftrightarrow> - (2 ^ (LENGTH('a) - 1)) \<le> r \<and> r < 2 ^ (LENGTH('a) - 1)"

text \<open>\<open>std::numeric_limits<T>::max()\<close> and \<open>std::numeric_limits<T>::lowest()\<close> for signed \<open>T\<close>.\<close>

definition numeric_limits_max :: "'a::len word" where
  "numeric_limits_max = word_of_int (2 ^ (LENGTH('a) - 1) - 1)"

definition numeric_limits_lowest :: "'a::len word" where
  "numeric_limits_lowest = word_of_int (- (2 ^ (LENGTH('a) - 1)))"

section \<open>Failures\<close>

text \<open>
  \<open>std::source_location\<close>: the file name and line of the call site. It is carried into a
  failure report and read nowhere else.
\<close>

datatype source_location = Source_Location string nat

text \<open>
  An operation either returns a value (\<open>Inr\<close>) or does not (\<open>Inl\<close>): it reports an
  unrecoverable error through \<open>runtime_error\<close>, or it evaluates a built-in operator of
  C++ where the language leaves the behaviour undefined (signed overflow, division by
  zero); during constant evaluation the latter means that the expression is not a
  constant expression.
\<close>

datatype failure = Unrecoverable_Error string source_location | Undefined_Behaviour

text \<open>
  Modelled from the spec: \<open>runtime_error\<close> is declared in \<open>flux/core/assert.hpp\<close>, which
  is not among the sources. It is the failure-reporting hook: invoked with the message
  and the diagnostic context, it terminates or unwinds the caller and never returns.
\<close>

definition runtime_error :: "string \<Rightarrow> source_location \<Rightarrow> failure + 'r" where
  "runtime_error msg loc = Inl (Unrecoverable_Error msg loc)"

section \<open>The built-in operators on signed operands\<close>

text \<open>
  \<open>lhs + rhs\<close>, \<open>lhs - rhs\<close>, \<open>lhs * rhs\<close> on signed operands: the mathematical result when
  \<open>T\<close> can represent it, undefined behaviour otherwise.
\<close>

definition raw_add :: "'a::len word \<Rightarrow> 'a word \<Rightarrow> failure + 'a word" where
  "raw_add lhs rhs =
     (let r = sint lhs + sint rhs
      in if representable TYPE('a) r then Inr (word_of_int r) else Inl Undefined_Behaviour)"

definition raw_sub :: "'a::len word \<Rightarrow> 'a word \<Rightarrow> failure + 'a word" where
  "raw_sub lhs rhs =
     (let r = sint lhs - sint rhs
      in if representable TYPE('a) r then Inr (word_of_int r) else Inl Undefined_Behaviour)"

definition raw_mul :: "'a::len word \<Rightarrow> 'a word \<Rightarrow> failure + 'a word" where
  "raw_mul lhs rhs =
     (let r = sint lhs * sint rhs
      in if representable TYPE('a) r then Inr (word_of_int r) else Inl Undefined_Behaviour)"

text \<open>
  \<open>lhs / rhs\<close> and \<open>lhs % rhs\<close> truncate towards zero. Both are undefined when the
  divisor is zero and when the quotient is not representable in \<open>T\<close>, which happens
  for the lowest value divided by \<open>-1\<close> only.
\<close>

definition raw_div :: "'a::len word \<Rightarrow> 'a word \<Rightarrow> failure + 'a word" where
  "raw_div lhs rhs =
     (if rhs = 0 then Inl Undefined_Behaviour
      else let q = sint lhs sdiv sint rhs
           in if representable TYPE('a) q then Inr (word_of_int q) else Inl Undefined_Behaviour)"

definition raw_mod :: "'a::len word \<Rightarrow> 'a word \<Rightarrow> failure + 'a word" where
  "raw_mod lhs rhs =
     (if rhs = 0 then Inl Undefined_Behaviour
      else if representable TYPE('a) (sint lhs sdiv sint rhs)
           then Inr (word_of_int (sint lhs smod sint rhs)) else Inl Undefined_Behaviour)"

section \<open>Wrapping operations\<close>

text \<open>
  \<open>static_cast<T>(static_cast<U>(lhs) + static_cast<U>(rhs))\<close>: the operands are read as
  unsigned values, the operation is carried out modulo \<open>2 ^ N\<close> as unsigned arithmetic
  is, and the result's bit pattern is read back as a signed value.
\<close>

definition wrapping_add :: "'a::len word \<Rightarrow> 'a word \<Rightarrow> 'a word" where
  "wrapping_add lhs rhs = word_of_int ((uint lhs + uint rhs) mod 2 ^ LENGTH('a))"

definition wrapping_sub :: "'a::len word \<Rightarrow> 'a word \<Rightarrow> 'a word" where
  "wrapping_sub lhs rhs = word_of_int ((uint lhs - uint rhs) mod 2 ^ LENGTH('a))"

definition wrapping_mul :: "'a::len word \<Rightarrow> 'a word \<Rightarrow> 'a word" where
  "wrapping_mul lhs rhs = word_of_int ((uint lhs * uint rhs) mod 2 ^ LENGTH('a))"

section \<open>Overflow-detecting operations\<close>

record 'v overflow_result =
  res_value :: 'v
  overflowed :: bool

text \<open>
  Modelled from the spec: the compiler intrinsics \<open>__builtin_add_overflow\<close>,
  \<open>__builtin_sub_overflow\<close> and \<open>__builtin_mul_overflow\<close> are not part of the sources.
  They compute the wrapped value and report overflow in one step: the operation is done
  on the mathematical integers, the result is stored reduced to \<open>T\<close>, and the returned
  flag says whether the stored result differs from the mathematical one. The pair is
  the returned flag and the value stored through the third argument.
\<close>

definition builtin_add_overflow :: "'a::len word \<Rightarrow> 'a word \<Rightarrow> bool \<times> 'a word" where
  "builtin_add_overflow a b =
     (let r = sint a + sint b in (\<not> representable TYPE('a) r, word_of_int r))"

definition builtin_sub_overflow :: "'a::len word \<Rightarrow> 'a word \<Rightarrow> bool \<times> 'a word" where
  "builtin_sub_overflow a b =
     (let r = sint a - sint b in (\<not> representable TYPE('a) r, word_of_int r))"

definition builtin_mul_overflow :: "'a::len word \<Rightarrow> 'a word \<Rightarrow> bool \<times> 'a word" where
  "builtin_mul_overflow a b =
     (let r = sint a * sint b in (\<not> representable TYPE('a) r, word_of_int r))"

text \<open>
  The first argument of each operation is \<open>detail::use_builtin_overflow_ops\<close>, which the
  preprocessor fixes from what the compiler offers.
\<close>

definition overflowing_add :: "bool \<Rightarrow> 'a::len word \<Rightarrow> 'a word \<Rightarrow> 'a word overflow_result" where
  "overflowing_add use_builtin lhs rhs =
     (if use_builtin then
        (let (ovf, lhs') = builtin_add_overflow lhs rhs
         in \<lparr>res_value = lhs', overflowed = ovf\<rparr>)
      else
        (let v = wrapping_add lhs rhs;
             ovf = (((lhs <s 0) = (rhs <s 0)) \<and> ((lhs <s 0) \<noteq> (v <s 0)))
         in \<lparr>res_value = v, overflowed = ovf\<rparr>))"

definition overflowing_sub :: "bool \<Rightarrow> 'a::len word \<Rightarrow> 'a word \<Rightarrow> 'a word overflow_result" where
  "overflowing_sub use_builtin lhs rhs =
     (if use_builtin then
        (let (ovf, lhs') = builtin_sub_overflow lhs rhs
         in \<lparr>res_value = lhs', overflowed = ovf\<rparr>)
      else
        (let v = wrapping_sub lhs rhs;
             ovf = ((0 \<le>s lhs \<and> rhs <s 0 \<and> v <s 0) \<or> (lhs <s 0 \<and> 0 <s rhs \<and> 0 <s v))
         in \<lparr>res_value = v, overflowed = ovf\<rparr>))"

text \<open>
  In the fallback branch \<open>lhs != 0 && value/lhs != rhs\<close> divides only when \<open>lhs\<close> is not
  zero; the division is the built-in one.
\<close>

definition overflowing_mul ::
  "bool \<Rightarrow> 'a::len word \<Rightarrow> 'a word \<Rightarrow> failure + 'a word overflow_result" where
  "overflowing_mul use_builtin lhs rhs =
     (if use_builtin then
        (let (ovf, lhs') = builtin_mul_overflow lhs rhs
         in Inr \<lparr>res_value = lhs', overflowed = ovf\<rparr>)
      else
        (let v = wrapping_mul lhs rhs
         in if lhs \<noteq> 0 then
              (case raw_div v lhs of
                 Inl e \<Rightarrow> Inl e
               | Inr q \<Rightarrow> Inr \<lparr>res_value = v, overflowed = (q \<noteq> rhs)\<rparr>)
            else Inr \<lparr>res_value = v, overflowed = False\<rparr>))"

section \<open>Policies\<close>

text \<open>
  The enumerations \<open>overflow_policy\<close> and \<open>divide_by_zero_policy\<close> and the constants
  \<open>config::on_overflow\<close> and \<open>config::on_divide_by_zero\<close> are declared outside the
  sources; the operations name the enumerators \<open>ignore\<close> and \<open>wrap\<close> and treat every
  other one as the failing policy. A \<open>config\<close> also records which of the two
  implementations of the overflow-detecting layer the build has and whether the call is
  being constant-evaluated (\<open>std::is_constant_evaluated()\<close>).
\<close>

datatype overflow_policy = overflow_ignore | overflow_wrap | overflow_fail

datatype divide_by_zero_policy = divide_by_zero_ignore | divide_by_zero_fail

record config =
  use_builtin_overflow_ops :: bool
  on_overflow :: overflow_policy
  on_divide_by_zero :: divide_by_zero_policy
  is_constant_evaluated :: bool

text \<open>
  The configurations of ordinary execution with the failing policies (the defaults, which
  the tests run under) and with the wrapping overflow policy.
\<close>

abbreviation fail_config :: "bool \<Rightarrow> config" where
  "fail_config use_builtin \<equiv>
     \<lparr>use_builtin_overflow_ops = use_builtin, on_overflow = overflow_fail,
      on_divide_by_zero = divide_by_zero_fail, is_constant_evaluated = False\<rparr>"

abbreviation wrap_config :: "bool \<Rightarrow> config" where
  "wrap_config use_builtin \<equiv>
     \<lparr>use_builtin_overflow_ops = use_builtin, on_overflow = overflow_wrap,
      on_divide_by_zero = divide_by_zero_fail, is_constant_evaluated = False\<rparr>"

section \<open>Policy-checked operations\<close>

definition checked_add ::
  "config \<Rightarrow> 'a::len word \<Rightarrow> 'a word \<Rightarrow> source_location \<Rightarrow> failure + 'a word" where
  "checked_add cfg lhs rhs loc =
     (if is_constant_evaluated cfg then raw_add lhs rhs
      else if on_overflow cfg = overflow_ignore then raw_add lhs rhs
      else if on_overflow cfg = overflow_wrap then Inr (wrapping_add lhs rhs)
      else (let res = overflowing_add (use_builtin_overflow_ops cfg) lhs rhs
            in if overflowed res then runtime_error ''signed overflow in addition'' loc
               else Inr (res_value res)))"

definition checked_sub ::
  "config \<Rightarrow> 'a::len word \<Rightarrow> 'a word \<Rightarrow> source_location \<Rightarrow> failure + 'a word" where
  "checked_sub cfg lhs rhs loc =
     (if is_constant_evaluated cfg then raw_sub lhs rhs
      else if on_overflow cfg = overflow_ignore then raw_sub lhs rhs
      else if on_overflow cfg = overflow_wrap then Inr (wrapping_sub lhs rhs)
      else (let res = overflowing_sub (use_builtin_overflow_ops cfg) lhs rhs
            in if overflowed res then runtime_error ''signed overflow in subtraction'' loc
               else Inr (res_value res)))"

definition checked_mul ::
  "config \<Rightarrow> 'a::len word \<Rightarrow> 'a word \<Rightarrow> source_location \<Rightarrow> failure + 'a word" where
  "checked_mul cfg lhs rhs loc =
     (if is_constant_evaluated cfg then raw_mul lhs rhs
      else if on_overflow cfg = overflow_ignore then raw_mul lhs rhs
      else if on_overflow cfg = overflow_wrap then Inr (wrapping_mul lhs rhs)
      else (case overflowing_mul (use_builtin_overflow_ops cfg) lhs rhs of
              Inl e \<Rightarrow> Inl e
            | Inr res \<Rightarrow>
                if overflowed res then runtime_error ''signed overflow in multiplication'' loc
                else Inr (res_value res)))"

section \<open>Powers\<close>

text \<open>
  The loop \<open>for (U i{0}; i < exponent; i++) res = checked_mul(res, base, loc)\<close> of
  \<open>checked_pow\<close>, from the state \<open>(i, res)\<close>. The counter has the unsigned type \<open>U\<close> of
  the exponent; a failure of \<open>checked_mul\<close> leaves the loop.
\<close>

function checked_pow_loop ::
  "config \<Rightarrow> 'a::len word \<Rightarrow> 'u::len word \<Rightarrow> source_location \<Rightarrow> 'u word \<Rightarrow> 'a word
     \<Rightarrow> failure + 'a word" where
  "checked_pow_loop cfg base exponent loc i res =
     (if i < exponent then
        (case checked_mul cfg res base loc of
           Inl e \<Rightarrow> Inl e
         | Inr res' \<Rightarrow> checked_pow_loop cfg base exponent loc (i + 1) res')
      else Inr res)"
  by pat_completeness auto

termination checked_pow_loop
proof (relation "measure (\<lambda>(cfg, base, exponent, loc, i, res). unat exponent - unat i)",
    goal_cases)
  case 1
  show ?case by simp
next
  case (2 cfg base exponent loc i res x2)
  then have below: "unat i < unat exponent"
    by (simp add: word_less_nat_alt)
  moreover have "unat exponent < 2 ^ LENGTH('b)"
    by (rule unsigned_less)
  ultimately have "unat i + 1 < 2 ^ LENGTH('b)"
    by linarith
  then have "unat (i + 1) = Suc (unat i)"
    by (simp add: unat_word_ariths)
  with below show ?case by simp
qed

declare checked_pow_loop.simps [simp del]

definition checked_pow ::
  "config \<Rightarrow> 'a::len word \<Rightarrow> 'u::len word \<Rightarrow> source_location \<Rightarrow> failure + 'a word" where
  "checked_pow cfg base exponent loc = checked_pow_loop cfg base exponent loc 0 1"

section \<open>Division and remainder\<close>

definition checked_div ::
  "config \<Rightarrow> 'a::len word \<Rightarrow> 'a word \<Rightarrow> source_location \<Rightarrow> failure + 'a word" where
  "checked_div cfg lhs rhs loc =
     (if is_constant_evaluated cfg then raw_div lhs rhs
      else if on_divide_by_zero cfg = divide_by_zero_ignore then raw_div lhs rhs
      else if rhs = 0 then runtime_error ''divide by zero'' loc
      else raw_div lhs rhs)"

definition checked_mod ::
  "config \<Rightarrow> 'a::len word \<Rightarrow> 'a word \<Rightarrow> source_location \<Rightarrow> failure + 'a word" where
  "checked_mod cfg lhs rhs loc =
     (if is_constant_evaluated cfg then raw_mod lhs rhs
      else if on_divide_by_zero cfg = divide_by_zero_ignore then raw_mod lhs rhs
      else if rhs = 0 then runtime_error ''divide by zero'' loc
      else raw_mod lhs rhs)"

section \<open>Reading an outcome\<close>

text \<open>What an outcome reports through \<open>runtime_error\<close>: the message and the call site, if any.\<close>

fun reported :: "failure + 'r \<Rightarrow> (string \<times> source_location) option" where
  "reported (Inl (Unrecoverable_Error msg loc)) = Some (msg, loc)"
| "reported (Inl Undefined_Behaviour) = None"
| "reported (Inr v) = None"

section \<open>Iterated multiplication\<close>

text \<open>
  \<open>checked_mul\<close> by \<open>base\<close> applied \<open>n\<close> times, one application after the other, starting
  from \<open>start\<close>; the first application that fails is the outcome.
\<close>

fun iterated_checked_mul ::
  "config \<Rightarrow> 'a::len word \<Rightarrow> source_location \<Rightarrow> 'a word \<Rightarrow> nat \<Rightarrow> failure + 'a word" where
  "iterated_checked_mul cfg base loc start 0 = Inr start"
| "iterated_checked_mul cfg base loc start (Suc n) =
     (case iterated_checked_mul cfg base loc start n of
        Inl e \<Rightarrow> Inl e
      | Inr res \<Rightarrow> checked_mul cfg res base loc)"

section \<open>Operand types\<close>

text \<open>
  Every operation is a generic lambda \<open>[]<std::signed_integral T>(T lhs, T rhs, ...)\<close>:
  it can be called with two operands of one signed integral type, and a call with
  operands of an unsigned type does not satisfy the constraint and is ill-formed. An
  operand is a bit pattern together with the signedness of its type.
\<close>

datatype signedness = Signed | Unsigned

datatype 'v integral = Integral signedness 'v

datatype 'r call = Ill_Formed | Well_Formed 'r

text \<open>\<open>std::numeric_limits<T>::max()\<close> and \<open>lowest()\<close> for signed and unsigned \<open>T\<close>.\<close>

fun limits_max :: "signedness \<Rightarrow> 'a::len word integral" where
  "limits_max Signed = Integral Signed numeric_limits_max"
| "limits_max Unsigned = Integral Unsigned (- 1)"

fun limits_lowest :: "signedness \<Rightarrow> 'a::len word integral" where
  "limits_lowest Signed = Integral Signed numeric_limits_lowest"
| "limits_lowest Unsigned = Integral Unsigned 0"

text \<open>A call of \<open>checked_sub\<close>: the constraint on \<open>T\<close>, then the body.\<close>

fun checked_sub_call ::
  "config \<Rightarrow> 'a::len word integral \<Rightarrow> 'a word integral \<Rightarrow> source_location
     \<Rightarrow> (failure + 'a word integral) call" where
  "checked_sub_call cfg (Integral Signed lhs) (Integral Signed rhs) loc =
     Well_Formed (map_sum id (Integral Signed) (checked_sub cfg lhs rhs loc))"
| "checked_sub_call cfg (Integral Signed lhs) (Integral Unsigned rhs) loc = Ill_Formed"
| "checked_sub_call cfg (Integral Unsigned lhs) rhs loc = Ill_Formed"

section \<open>Words and the integers they denote\<close>

lemma word_of_int_mod_len: "(word_of_int (k mod 2 ^ LENGTH('a)) :: 'a::len word) = word_of_int k"
  by (simp add: word_of_int_eq_iff take_bit_eq_mod)

lemma wrapping_add_eq: "wrapping_add lhs rhs = lhs + rhs"
  unfolding wrapping_add_def word_of_int_mod_len by (simp add: wi_hom_syms)
lemma wrapping_sub_eq: "wrapping_sub lhs rhs = lhs - rhs"
  unfolding wrapping_sub_def word_of_int_mod_len by (simp add: wi_hom_syms)
lemma wrapping_mul_eq: "wrapping_mul lhs rhs = lhs * rhs"
  unfolding wrapping_mul_def word_of_int_mod_len by (simp add: wi_hom_syms)

lemma representable_sint: "representable TYPE('a::len) (sint (x :: 'a word))"
  using sint_ge [of x] sint_lt [of x] by (simp add: representable_def)

lemma representable_iff:
  "representable TYPE('a::len) r \<longleftrightarrow> sint (word_of_int r :: 'a word) = r"
  by (simp add: representable_def sint_sbintrunc' signed_take_bit_int_eq_self_iff)

lemma sint_word_of_int_above:
  assumes "2 ^ (LENGTH('a::len) - 1) \<le> r" "r < 2 ^ LENGTH('a)"
  shows "sint (word_of_int r :: 'a word) < 0"
proof -
  have "signed_take_bit (LENGTH('a) - 1) r \<le> r - 2 ^ Suc (LENGTH('a) - 1)"
    using assms(1) by (rule signed_take_bit_int_less_eq)
  moreover have "Suc (LENGTH('a) - 1) = LENGTH('a)"
    by simp
  ultimately have "signed_take_bit (LENGTH('a) - 1) r < 0"
    using assms(2) by (simp only: )
  then show ?thesis by (simp only: sint_sbintrunc')
qed

lemma sint_word_of_int_below:
  assumes "r < - (2 ^ (LENGTH('a::len) - 1))" "- (2 ^ LENGTH('a)) \<le> r"
  shows "0 \<le> sint (word_of_int r :: 'a word)"
proof -
  have "r + 2 ^ Suc (LENGTH('a) - 1) \<le> signed_take_bit (LENGTH('a) - 1) r"
    using assms(1) by (rule signed_take_bit_int_greater_eq)
  moreover have "Suc (LENGTH('a) - 1) = LENGTH('a)"
    by simp
  ultimately have "0 \<le> signed_take_bit (LENGTH('a) - 1) r"
    using assms(2) by (simp only: )
  then show ?thesis by (simp only: sint_sbintrunc')
qed

lemma two_power_len: "(2 :: int) ^ LENGTH('a::len) = 2 * 2 ^ (LENGTH('a) - 1)"
proof -
  obtain n where "LENGTH('a) = Suc n"
    by (cases "LENGTH('a)") simp_all
  then show ?thesis by simp
qed

lemma add_sign_analysis:
  fixes lhs rhs :: "'a::len word"
  shows "(((lhs <s 0) = (rhs <s 0)) \<and> ((lhs <s 0) \<noteq> (lhs + rhs <s 0)))
     \<longleftrightarrow> \<not> representable TYPE('a) (sint lhs + sint rhs)"
proof -
  define M :: int where "M = 2 ^ (LENGTH('a) - 1)"
  define s where "s = sint lhs + sint rhs"
  define v where "v = sint (lhs + rhs)"
  have len: "(2 :: int) ^ LENGTH('a) = 2 * M"
    unfolding M_def by (rule two_power_len)
  have l: "- M \<le> sint lhs" "sint lhs < M" and r: "- M \<le> sint rhs" "sint rhs < M"
    unfolding M_def by (rule sint_ge sint_lt)+
  have v: "v = sint (word_of_int s :: 'a word)"
    unfolding s_def v_def by (simp add: wi_hom_syms)
  have rep: "representable TYPE('a) s \<longleftrightarrow> - M \<le> s \<and> s < M"
    unfolding representable_def M_def ..
  have goal: "(((lhs <s 0) = (rhs <s 0)) \<and> ((lhs <s 0) \<noteq> (lhs + rhs <s 0)))
      \<longleftrightarrow> ((sint lhs < 0) = (sint rhs < 0)) \<and> ((sint lhs < 0) \<noteq> (v < 0))"
    by (simp add: word_sless_alt v_def)
  consider "M \<le> s" | "s < - M" | "- M \<le> s" "s < M"
    by linarith
  then have "((sint lhs < 0) = (sint rhs < 0)) \<and> ((sint lhs < 0) \<noteq> (v < 0))
      \<longleftrightarrow> \<not> (- M \<le> s \<and> s < M)"
  proof cases
    case 1
    then have "2 ^ (LENGTH('a) - 1) \<le> s"
      by (simp add: M_def)
    moreover have "s < 2 ^ LENGTH('a)"
      using l r by (simp add: len s_def)
    ultimately have "v < 0"
      unfolding v by (rule sint_word_of_int_above)
    with 1 l r show ?thesis
      unfolding s_def by auto
  next
    case 2
    then have "s < - (2 ^ (LENGTH('a) - 1))"
      by (simp add: M_def)
    moreover have "- (2 ^ LENGTH('a)) \<le> s"
      using l r by (simp add: len s_def)
    ultimately have "0 \<le> v"
      unfolding v by (rule sint_word_of_int_below)
    with 2 l r show ?thesis
      unfolding s_def by auto
  next
    case 3
    then have "v = s"
      unfolding v using rep by (simp add: representable_iff)
    with 3 show ?thesis
      unfolding s_def by auto
  qed
  with goal rep show ?thesis
    unfolding s_def by simp
qed

lemma sub_sign_analysis:
  fixes lhs rhs :: "'a::len word"
  shows "((0 \<le>s lhs \<and> rhs <s 0 \<and> lhs - rhs <s 0) \<or> (lhs <s 0 \<and> 0 <s rhs \<and> 0 <s lhs - rhs))
     \<longleftrightarrow> \<not> representable TYPE('a) (sint lhs - sint rhs)"
proof -
  define M :: int where "M = 2 ^ (LENGTH('a) - 1)"
  define s where "s = sint lhs - sint rhs"
  define v where "v = sint (lhs - rhs)"
  have len: "(2 :: int) ^ LENGTH('a) = 2 * M"
    unfolding M_def by (rule two_power_len)
  have l: "- M \<le> sint lhs" "sint lhs < M" and r: "- M \<le> sint rhs" "sint rhs < M"
    unfolding M_def by (rule sint_ge sint_lt)+
  have v: "v = sint (word_of_int s :: 'a word)"
    unfolding s_def v_def by (simp add: wi_hom_syms)
  have rep: "representable TYPE('a) s \<longleftrightarrow> - M \<le> s \<and> s < M"
    unfolding representable_def M_def ..
  have goal: "((0 \<le>s lhs \<and> rhs <s 0 \<and> lhs - rhs <s 0) \<or> (lhs <s 0 \<and> 0 <s rhs \<and> 0 <s lhs - rhs))
      \<longleftrightarrow> (0 \<le> sint lhs \<and> sint rhs < 0 \<and> v < 0) \<or> (sint lhs < 0 \<and> 0 < sint rhs \<and> 0 < v)"
    by (simp add: word_sless_alt word_sle_eq v_def)
  consider "M \<le> s" | "s < - M" | "- M \<le> s" "s < M"
    by linarith
  then have "(0 \<le> sint lhs \<and> sint rhs < 0 \<and> v < 0) \<or> (sint lhs < 0 \<and> 0 < sint rhs \<and> 0 < v)
      \<longleftrightarrow> \<not> (- M \<le> s \<and> s < M)"
  proof cases
    case 1
    then have "2 ^ (LENGTH('a) - 1) \<le> s"
      by (simp add: M_def)
    moreover have "s < 2 ^ LENGTH('a)"
      using l r by (simp add: len s_def)
    ultimately have "v < 0"
      unfolding v by (rule sint_word_of_int_above)
    with 1 l r show ?thesis
      unfolding s_def by auto
  next
    case 2
    then have below: "s < - (2 ^ (LENGTH('a) - 1))"
      by (simp add: M_def)
    have "signed_take_bit (LENGTH('a) - 1) s \<ge> s + 2 ^ Suc (LENGTH('a) - 1)"
      using below by (rule signed_take_bit_int_greater_eq)
    moreover have "Suc (LENGTH('a) - 1) = LENGTH('a)"
      by simp
    ultimately have "s + 2 * M \<le> v"
      unfolding v sint_sbintrunc' by (simp only: len)
    with 2 l r show ?thesis
      unfolding s_def by auto
  next
    case 3
    then have "v = s"
      unfolding v using rep by (simp add: representable_iff)
    with 3 show ?thesis
      unfolding s_def by auto
  qed
  with goal rep show ?thesis
    unfolding s_def by simp
qed

section \<open>The overflow-detecting layer against the mathematical result\<close>

lemma overflowed_overflowing_add:
  "overflowed (overflowing_add use_builtin lhs rhs)
     \<longleftrightarrow> \<not> representable TYPE('a) (sint lhs + sint (rhs :: 'a::len word))"
  using add_sign_analysis [of lhs rhs]
  by (auto simp add: overflowing_add_def builtin_add_overflow_def Let_def wrapping_add_eq)

lemma res_value_overflowing_add:
  "res_value (overflowing_add use_builtin lhs rhs) = lhs + rhs"
  by (simp add: overflowing_add_def builtin_add_overflow_def Let_def wrapping_add_eq wi_hom_syms)

lemma overflowed_overflowing_sub:
  "overflowed (overflowing_sub use_builtin lhs rhs)
     \<longleftrightarrow> \<not> representable TYPE('a) (sint lhs - sint (rhs :: 'a::len word))"
  by (simp add: overflowing_sub_def builtin_sub_overflow_def Let_def wrapping_sub_eq
      sub_sign_analysis)

lemma res_value_overflowing_sub:
  "res_value (overflowing_sub use_builtin lhs rhs) = lhs - rhs"
  by (simp add: overflowing_sub_def builtin_sub_overflow_def Let_def wrapping_sub_eq wi_hom_syms)

lemma sint_numeric_limits_max:
  "sint (numeric_limits_max :: 'a::len word) = 2 ^ (LENGTH('a) - 1) - 1"
proof -
  have "representable TYPE('a) (2 ^ (LENGTH('a) - 1) - 1)"
    by (simp add: representable_def)
  then show ?thesis
    by (simp only: numeric_limits_max_def representable_iff)
qed

lemma sint_numeric_limits_lowest:
  "sint (numeric_limits_lowest :: 'a::len word) = - (2 ^ (LENGTH('a) - 1))"
proof -
  have "representable TYPE('a) (- (2 ^ (LENGTH('a) - 1)))"
    by (simp add: representable_def)
  then show ?thesis
    by (simp only: numeric_limits_lowest_def representable_iff)
qed

lemma sint_one: "2 \<le> LENGTH('a::len) \<Longrightarrow> sint (1 :: 'a word) = 1"
  by simp

section \<open>Addition\<close>

text \<open>
  Claim C4. For every signed integral type and all \<open>a\<close>, \<open>b\<close> of it, \<open>wrapping_add(a, b)\<close>
  is the unique value of the type that is congruent to the sum of \<open>a\<close> and \<open>b\<close> modulo
  \<open>2 ^ N\<close>: an integer \<open>v\<close> is representable and congruent to the sum exactly when it is
  the value of \<open>wrapping_add a b\<close>. The operation has no failing outcome: its result
  is a word, for all operands.
\<close>

theorem wrapping_add_unique_congruent:
  fixes a b :: "'a::len word"
  shows "(representable TYPE('a) v \<and> v mod 2 ^ LENGTH('a) = (sint a + sint b) mod 2 ^ LENGTH('a))
     \<longleftrightarrow> v = sint (wrapping_add a b)"
proof -
  have sum: "wrapping_add a b = word_of_int (sint a + sint b)"
    by (simp add: wrapping_add_eq wi_hom_syms)
  have cong: "v mod 2 ^ LENGTH('a) = (sint a + sint b) mod 2 ^ LENGTH('a)
      \<longleftrightarrow> (word_of_int v :: 'a word) = wrapping_add a b" for v
    by (simp only: sum word_of_int_eq_iff take_bit_eq_mod)
  show ?thesis
  proof
    assume "representable TYPE('a) v \<and> v mod 2 ^ LENGTH('a) = (sint a + sint b) mod 2 ^ LENGTH('a)"
    then have "representable TYPE('a) v"
      and "v mod 2 ^ LENGTH('a) = (sint a + sint b) mod 2 ^ LENGTH('a)"
      by (rule conjunct1, rule conjunct2)
    then have e1: "sint (word_of_int v :: 'a word) = v"
      and e2: "(word_of_int v :: 'a word) = wrapping_add a b"
      by (simp_all only: representable_iff cong)
    show "v = sint (wrapping_add a b)"
      using e1 unfolding e2 by (rule sym)
  next
    assume v: "v = sint (wrapping_add a b)"
    then have "representable TYPE('a) v"
      by (simp add: representable_sint)
    moreover have "(word_of_int v :: 'a word) = wrapping_add a b"
      unfolding v by simp
    ultimately show "representable TYPE('a) v \<and> v mod 2 ^ LENGTH('a) = (sint a + sint b) mod 2 ^ LENGTH('a)"
      by (simp add: cong)
  qed
qed

text \<open>
  Claim C1. For every signed integral type and all \<open>a\<close>, \<open>b\<close> of it, the flag of
  \<open>overflowing_add(a, b)\<close> is set if and only if the sum of \<open>a\<close> and \<open>b\<close> as unbounded
  integers lies outside \<open>[min(T), max(T)]\<close>, and the value is \<open>wrapping_add(a, b)\<close>. This
  holds for both implementations, the compiler intrinsic (\<open>use_builtin\<close> true) and the
  portable sign analysis (\<open>use_builtin\<close> false).
\<close>

theorem overflowing_add_detects_overflow:
  fixes a b :: "'a::len word"
  shows "(overflowed (overflowing_add use_builtin a b)
            \<longleftrightarrow> \<not> representable TYPE('a) (sint a + sint b))
       \<and> res_value (overflowing_add use_builtin a b) = wrapping_add a b"
  by (simp add: overflowed_overflowing_add res_value_overflowing_add wrapping_add_eq)

text \<open>
  Claim C5. Under the failing overflow policy, in ordinary execution, \<open>checked_add\<close> of
  the largest value and one reports the error "signed overflow in addition", and
  \<open>checked_add\<close> of the lowest and the largest value returns \<open>-1\<close>. A signed integral type
  has at least two bits, so that \<open>T{1}\<close> is one.
\<close>

theorem checked_add_fail_policy_extremes:
  assumes "2 \<le> LENGTH('a::len)"
    and "on_overflow cfg = overflow_fail" and "\<not> is_constant_evaluated cfg"
  shows "checked_add cfg (numeric_limits_max :: 'a word) 1 loc
           = Inl (Unrecoverable_Error ''signed overflow in addition'' loc)
       \<and> checked_add cfg (numeric_limits_lowest :: 'a word) numeric_limits_max loc = Inr (- 1)"
proof -
  have "\<not> representable TYPE('a) (sint (numeric_limits_max :: 'a word) + sint (1 :: 'a word))"
    using assms(1) by (simp add: sint_numeric_limits_max sint_one representable_def)
  moreover have "representable TYPE('a)
      (sint (numeric_limits_lowest :: 'a word) + sint (numeric_limits_max :: 'a word))"
  proof -
    have "(0 :: int) < 2 ^ (LENGTH('a) - 1)"
      by simp
    then show ?thesis
      unfolding sint_numeric_limits_max sint_numeric_limits_lowest representable_def
      by linarith
  qed
  moreover have "(numeric_limits_lowest :: 'a word) + numeric_limits_max = - 1"
    by (simp add: numeric_limits_max_def numeric_limits_lowest_def wi_hom_syms [symmetric])
  ultimately show ?thesis
    using assms(2,3)
    by (simp add: checked_add_def Let_def overflowed_overflowing_add res_value_overflowing_add
        runtime_error_def)
qed

theorem checked_add_fail_policy_extremes_witness:
  "2 \<le> LENGTH(32)
   \<and> on_overflow (fail_config False) = overflow_fail
   \<and> \<not> is_constant_evaluated (fail_config False)
   \<and> checked_add (fail_config False) (2147483647 :: 32 word) 1
        (Source_Location ''test_default_ops.cpp'' 479)
      = Inl (Unrecoverable_Error ''signed overflow in addition''
          (Source_Location ''test_default_ops.cpp'' 479))
   \<and> checked_add (fail_config False) (- 2147483648 :: 32 word) 2147483647
        (Source_Location ''test_default_ops.cpp'' 479)
      = Inr (- 1)"
  using checked_add_fail_policy_extremes [where 'a = 32 and cfg = "fail_config False"
      and loc = "Source_Location ''test_default_ops.cpp'' 479"]
  by (simp add: numeric_limits_max_def numeric_limits_lowest_def)

text \<open>
  Claim C6. Under the wrapping overflow policy, in ordinary execution, \<open>checked_add(a, b)\<close>
  returns \<open>wrapping_add(a, b)\<close> for all operands, and so never fails.
\<close>

theorem checked_add_wrap_policy:
  assumes "on_overflow cfg = overflow_wrap" and "\<not> is_constant_evaluated cfg"
  shows "checked_add cfg a b loc = Inr (wrapping_add a b)"
  using assms by (simp add: checked_add_def)

theorem checked_add_wrap_policy_witness:
  "on_overflow (wrap_config False) = overflow_wrap
   \<and> \<not> is_constant_evaluated (wrap_config False)
   \<and> checked_add (wrap_config False) (2147483647 :: 32 word) 1
        (Source_Location ''caller.cpp'' 1)
      = Inr (- 2147483648)"
  using checked_add_wrap_policy [where cfg = "wrap_config False"
      and a = "2147483647 :: 32 word" and b = 1 and loc = "Source_Location ''caller.cpp'' 1"]
  by (simp add: wrapping_add_def)

text \<open>
  Claim C9. Under the failing overflow policy, in ordinary execution, whenever the flag of
  \<open>overflowing_add(a, b)\<close> is not set, \<open>checked_add(a, b)\<close> returns the value of
  \<open>overflowing_add(a, b)\<close> and reports no failure.
\<close>

theorem checked_add_returns_unflagged_value:
  assumes "on_overflow cfg = overflow_fail" and "\<not> is_constant_evaluated cfg"
    and "\<not> overflowed (overflowing_add (use_builtin_overflow_ops cfg) a b)"
  shows "checked_add cfg a b loc
           = Inr (res_value (overflowing_add (use_builtin_overflow_ops cfg) a b))"
  using assms by (simp add: checked_add_def Let_def)

theorem checked_add_returns_unflagged_value_witness:
  "on_overflow (fail_config False) = overflow_fail
   \<and> \<not> is_constant_evaluated (fail_config False)
   \<and> \<not> overflowed (overflowing_add (use_builtin_overflow_ops (fail_config False))
          (5 :: 32 word) 7)
   \<and> checked_add (fail_config False) (5 :: 32 word) 7 (Source_Location ''caller.cpp'' 1)
      = Inr 12"
  using checked_add_returns_unflagged_value [where cfg = "fail_config False"
      and a = "5 :: 32 word" and b = 7 and loc = "Source_Location ''caller.cpp'' 1"]
  by (simp add: overflowing_add_def wrapping_add_def word_sless_alt)

section \<open>Subtraction\<close>

lemma sint_max_minus_lowest:
  "\<not> representable TYPE('a::len)
      (sint (numeric_limits_max :: 'a word) - sint (numeric_limits_lowest :: 'a word))"
proof -
  have "(0 :: int) < 2 ^ (LENGTH('a) - 1)"
    by simp
  then show ?thesis
    unfolding sint_numeric_limits_max sint_numeric_limits_lowest representable_def
    by linarith
qed

text \<open>
  Claim C8, as amended. Under the failing overflow policy, in ordinary execution,
  \<open>checked_sub\<close> of the largest and the lowest value of a signed integral type reports the
  error "signed overflow in subtraction". \<open>checked_sub\<close> is constrained to signed
  integral types, so the same call with the largest and the lowest value of an unsigned
  type is ill-formed: it neither succeeds nor returns the largest value.
\<close>

theorem checked_sub_extremes:
  assumes "on_overflow cfg = overflow_fail" and "\<not> is_constant_evaluated cfg"
  shows "checked_sub_call cfg (limits_max Signed :: 'a::len word integral) (limits_lowest Signed) loc
           = Well_Formed (Inl (Unrecoverable_Error ''signed overflow in subtraction'' loc))
       \<and> checked_sub_call cfg (limits_max Unsigned :: 'a word integral) (limits_lowest Unsigned) loc
           = Ill_Formed"
  using assms sint_max_minus_lowest [where 'a = 'a]
  by (simp add: checked_sub_def Let_def overflowed_overflowing_sub runtime_error_def)

theorem checked_sub_extremes_witness:
  "on_overflow (fail_config False) = overflow_fail
   \<and> \<not> is_constant_evaluated (fail_config False)
   \<and> checked_sub_call (fail_config False) (Integral Signed (2147483647 :: 32 word))
        (Integral Signed (- 2147483648)) (Source_Location ''test_default_ops.cpp'' 528)
      = Well_Formed (Inl (Unrecoverable_Error ''signed overflow in subtraction''
          (Source_Location ''test_default_ops.cpp'' 528)))
   \<and> checked_sub_call (fail_config False) (Integral Unsigned (4294967295 :: 32 word))
        (Integral Unsigned 0) (Source_Location ''test_default_ops.cpp'' 526)
      = Ill_Formed"
  using checked_sub_extremes [where 'a = 32 and cfg = "fail_config False"
      and loc = "Source_Location ''test_default_ops.cpp'' 528"]
  by (simp add: numeric_limits_max_def numeric_limits_lowest_def)

text \<open>
  The claim as stated fails for \<open>unsigned int\<close>: the call with \<open>4294967295\<close> and \<open>0\<close> does
  not return \<open>4294967295\<close>.
\<close>

theorem checked_sub_unsigned_counterexample:
  "checked_sub_call (fail_config False) (Integral Unsigned (4294967295 :: 32 word))
     (Integral Unsigned 0) (Source_Location ''test_default_ops.cpp'' 526)
   \<noteq> Well_Formed (Inr (Integral Unsigned 4294967295))"
  by simp

section \<open>Division and remainder by zero\<close>

lemma reported_raw_div: "reported (raw_div lhs rhs) = None"
  by (simp add: raw_div_def Let_def)

lemma reported_raw_mod: "reported (raw_mod lhs rhs) = None"
  by (simp add: raw_mod_def)

lemma raw_div_lowest_minus_one:
  "raw_div (numeric_limits_lowest :: 'a::len word) (- 1) = Inl Undefined_Behaviour"
  by (simp add: raw_div_def sint_numeric_limits_lowest representable_def)

text \<open>
  Claim C3. Under the failing divide-by-zero policy, in ordinary execution, \<open>checked_div\<close>
  and \<open>checked_mod\<close> report the error "divide by zero" if the divisor is zero, and report
  nothing otherwise. The lowest value divided by \<open>-1\<close> has no guard of its own: both
  operations go on to the built-in operator there, and nothing is reported.
\<close>

theorem checked_div_mod_fail_iff_zero_divisor:
  fixes a b :: "'a::len word"
  assumes "on_divide_by_zero cfg = divide_by_zero_fail" and "\<not> is_constant_evaluated cfg"
  shows "reported (checked_div cfg a b loc)
           = (if b = 0 then Some (''divide by zero'', loc) else None)
       \<and> reported (checked_mod cfg a b loc)
           = (if b = 0 then Some (''divide by zero'', loc) else None)
       \<and> checked_div cfg (numeric_limits_lowest :: 'a word) (- 1) loc
           = raw_div numeric_limits_lowest (- 1)
       \<and> checked_mod cfg (numeric_limits_lowest :: 'a word) (- 1) loc
           = raw_mod numeric_limits_lowest (- 1)
       \<and> reported (checked_div cfg (numeric_limits_lowest :: 'a word) (- 1) loc) = None
       \<and> reported (checked_mod cfg (numeric_limits_lowest :: 'a word) (- 1) loc) = None"
  using assms
  by (simp add: checked_div_def checked_mod_def runtime_error_def reported_raw_div
      reported_raw_mod)

theorem checked_div_mod_fail_iff_zero_divisor_witness:
  "on_divide_by_zero (fail_config False) = divide_by_zero_fail
   \<and> \<not> is_constant_evaluated (fail_config False)
   \<and> reported (checked_div (fail_config False) (1 :: 32 word) 0
        (Source_Location ''test_default_ops.cpp'' 629))
       = Some (''divide by zero'', Source_Location ''test_default_ops.cpp'' 629)
   \<and> checked_div (fail_config False) (10 :: 32 word) 5
        (Source_Location ''test_default_ops.cpp'' 615) = Inr 2
   \<and> reported (checked_mod (fail_config False) (1 :: 32 word) 0
        (Source_Location ''test_default_ops.cpp'' 629))
       = Some (''divide by zero'', Source_Location ''test_default_ops.cpp'' 629)
   \<and> reported (checked_div (fail_config False) (- 2147483648 :: 32 word) (- 1)
        (Source_Location ''test_default_ops.cpp'' 640)) = None"
  using checked_div_mod_fail_iff_zero_divisor [where 'a = 32 and cfg = "fail_config False"
      and a = 1 and b = 0 and loc = "Source_Location ''test_default_ops.cpp'' 629"]
    checked_div_mod_fail_iff_zero_divisor [where 'a = 32 and cfg = "fail_config False"
      and loc = "Source_Location ''test_default_ops.cpp'' 640"]
  by (simp add: numeric_limits_lowest_def)
    (simp add: checked_div_def raw_div_def representable_def signed_divide_int_def)

section \<open>Powers by iterated multiplication\<close>

lemma iterated_checked_mul_front:
  "iterated_checked_mul cfg base loc start (Suc n) =
     (case checked_mul cfg start base loc of
        Inl e \<Rightarrow> Inl e
      | Inr res \<Rightarrow> iterated_checked_mul cfg base loc res n)"
proof (induction n)
  case 0
  show ?case by (simp split: sum.split)
next
  case (Suc n)
  have "iterated_checked_mul cfg base loc start (Suc (Suc n)) =
      (case iterated_checked_mul cfg base loc start (Suc n) of
         Inl e \<Rightarrow> Inl e
       | Inr res \<Rightarrow> checked_mul cfg res base loc)"
    by (rule iterated_checked_mul.simps)
  also have "\<dots> =
      (case checked_mul cfg start base loc of
         Inl e \<Rightarrow> Inl e
       | Inr res \<Rightarrow> iterated_checked_mul cfg base loc res (Suc n))"
    unfolding Suc.IH by (simp split: sum.split)
  finally show ?case .
qed

lemma counter_step:
  fixes i exponent :: "'u::len word"
  assumes "i < exponent"
  shows "unat exponent - unat i = Suc (unat exponent - unat (i + 1))"
proof -
  have below: "unat i < unat exponent"
    using assms by (simp add: word_less_nat_alt)
  moreover have "unat exponent < 2 ^ LENGTH('u)"
    by (rule unsigned_less)
  ultimately have "unat i + 1 < 2 ^ LENGTH('u)"
    by linarith
  then have "unat (i + 1) = Suc (unat i)"
    by (simp add: unat_word_ariths)
  with below show ?thesis
    by simp
qed

lemma checked_pow_loop_iterates:
  "checked_pow_loop cfg base exponent loc i res
     = iterated_checked_mul cfg base loc res (unat exponent - unat i)"
proof (induction cfg base exponent loc i res rule: checked_pow_loop.induct)
  case (1 cfg base exponent loc i res)
  show ?case
  proof (cases "i < exponent")
    case True
    have "checked_pow_loop cfg base exponent loc i res =
        (case checked_mul cfg res base loc of
           Inl e \<Rightarrow> Inl e
         | Inr res' \<Rightarrow> checked_pow_loop cfg base exponent loc (i + 1) res')"
      using True by (subst checked_pow_loop.simps) simp
    also have "\<dots> =
        (case checked_mul cfg res base loc of
           Inl e \<Rightarrow> Inl e
         | Inr res' \<Rightarrow> iterated_checked_mul cfg base loc res' (unat exponent - unat (i + 1)))"
      using 1 [OF True] by (simp split: sum.split)
    also have "\<dots> = iterated_checked_mul cfg base loc res (unat exponent - unat i)"
      unfolding counter_step [OF True] iterated_checked_mul_front ..
    finally show ?thesis .
  next
    case False
    then have "unat exponent - unat i = 0"
      by (simp add: word_less_nat_alt)
    moreover have "checked_pow_loop cfg base exponent loc i res = Inr res"
      using False by (subst checked_pow_loop.simps) simp
    ultimately show ?thesis
      by simp
  qed
qed

lemma iterated_checked_mul_fails_iff:
  "iterated_checked_mul cfg base loc start n = Inl e \<longleftrightarrow>
     (\<exists>k<n. \<exists>res. iterated_checked_mul cfg base loc start k = Inr res
        \<and> checked_mul cfg res base loc = Inl e)"
proof (induction n)
  case 0
  show ?case by simp
next
  case (Suc n)
  have step: "iterated_checked_mul cfg base loc start (Suc n) = Inl e \<longleftrightarrow>
      iterated_checked_mul cfg base loc start n = Inl e
      \<or> (\<exists>res. iterated_checked_mul cfg base loc start n = Inr res
            \<and> checked_mul cfg res base loc = Inl e)"
    by (cases "iterated_checked_mul cfg base loc start n") simp_all
  show ?case
    unfolding step Suc.IH by (auto simp add: less_Suc_eq)
qed

text \<open>
  Claim C7. For every signed base and unsigned exponent, under every policy,
  \<open>checked_pow(base, exponent)\<close> is the outcome of applying \<open>checked_mul\<close> by \<open>base\<close>
  \<open>exponent\<close> times starting from \<open>T{1}\<close>. The exponent zero gives \<open>T{1}\<close> for any base,
  zero included. \<open>checked_pow\<close> fails with \<open>e\<close> exactly when one of the multiplications
  on the way, applied to the product reached so far, fails with \<open>e\<close>.
\<close>

theorem checked_pow_iterates_checked_mul:
  fixes base :: "'a::len word" and exponent :: "'u::len word"
  shows "checked_pow cfg base exponent loc
           = iterated_checked_mul cfg base loc 1 (unat exponent)
       \<and> checked_pow cfg base (0 :: 'u word) loc = Inr 1
       \<and> (checked_pow cfg base exponent loc = Inl e \<longleftrightarrow>
            (\<exists>k<unat exponent. \<exists>res.
                iterated_checked_mul cfg base loc 1 k = Inr res
              \<and> checked_mul cfg res base loc = Inl e))"
  by (simp add: checked_pow_def checked_pow_loop_iterates iterated_checked_mul_fails_iff)

lemma iterated_checked_mul_numeral:
  "iterated_checked_mul cfg base loc start (numeral k) =
     (case iterated_checked_mul cfg base loc start (pred_numeral k) of
        Inl e \<Rightarrow> Inl e
      | Inr res \<Rightarrow> checked_mul cfg res base loc)"
  by (simp add: numeral_eq_Suc)

theorem checked_pow_iterates_checked_mul_witness:
  "checked_pow (fail_config False) (3 :: 32 word) (4 :: 32 word) (Source_Location ''caller.cpp'' 1)
     = Inr 81
   \<and> checked_pow (fail_config False) (65536 :: 32 word) (2 :: 32 word)
        (Source_Location ''caller.cpp'' 1)
     = Inl (Unrecoverable_Error ''signed overflow in multiplication''
         (Source_Location ''caller.cpp'' 1))
   \<and> checked_pow (fail_config False) (0 :: 32 word) (0 :: 32 word)
        (Source_Location ''caller.cpp'' 1)
     = Inr 1"
  using checked_pow_iterates_checked_mul [where cfg = "fail_config False"
      and base = "3 :: 32 word" and exponent = "4 :: 32 word"
      and loc = "Source_Location ''caller.cpp'' 1", THEN conjunct1]
    checked_pow_iterates_checked_mul [where cfg = "fail_config False"
      and base = "65536 :: 32 word" and exponent = "2 :: 32 word"
      and loc = "Source_Location ''caller.cpp'' 1", THEN conjunct1]
    checked_pow_iterates_checked_mul [where cfg = "fail_config False"
      and base = "0 :: 32 word" and exponent = "0 :: 32 word"
      and loc = "Source_Location ''caller.cpp'' 1", THEN conjunct1]
  by (simp add: iterated_checked_mul_numeral checked_mul_def overflowing_mul_def
      wrapping_mul_eq raw_div_def representable_def signed_divide_int_def runtime_error_def)

section \<open>Multiplication\<close>

text \<open>
  Truncating division on the integers: dividing a product by a factor gives the other
  factor back, the remainder is smaller than the divisor, and a divisor other than
  \<open>1\<close> and \<open>-1\<close> at least halves the dividend.
\<close>

lemma sdiv_mult_cancel:
  fixes a b :: int
  assumes "a \<noteq> 0"
  shows "(a * b) sdiv a = b"
proof -
  have "(a * b) sdiv a = (sgn a * sgn a) * (sgn b * (\<bar>a\<bar> * \<bar>b\<bar> div \<bar>a\<bar>))"
    by (simp add: signed_divide_int_def sgn_mult abs_mult ac_simps)
  also have "\<dots> = sgn b * \<bar>b\<bar>"
    using assms by (simp add: sgn_mult_self_eq)
  finally show ?thesis
    by (simp add: sgn_mult_abs)
qed

lemma sdiv_remainder_small:
  fixes v a :: int
  assumes "a \<noteq> 0"
  shows "\<bar>v - a * (v sdiv a)\<bar> < \<bar>a\<bar>"
proof -
  have "v smod a \<in> {- \<bar>a\<bar> + 1..\<bar>a\<bar> - 1}"
    using assms by (rule smod_int_range)
  then show ?thesis
    unfolding minus_mult_sdiv_eq_smod by auto
qed

lemma sdiv_halves:
  fixes v a :: int
  assumes "2 \<le> \<bar>a\<bar>"
  shows "\<bar>v sdiv a\<bar> \<le> \<bar>v\<bar> div 2"
proof -
  have "0 \<le> \<bar>v\<bar> div \<bar>a\<bar>"
    using assms by (simp add: pos_imp_zdiv_nonneg_iff)
  then have "\<bar>v sdiv a\<bar> = \<bar>sgn v\<bar> * \<bar>sgn a\<bar> * (\<bar>v\<bar> div \<bar>a\<bar>)"
    by (simp add: signed_divide_int_def abs_mult)
  also have "\<dots> \<le> \<bar>v\<bar> div \<bar>a\<bar>"
    by (simp add: abs_sgn_eq)
  also have "\<dots> \<le> \<bar>v\<bar> div 2"
    using assms by (intro zdiv_mono2) simp_all
  finally show ?thesis .
qed

text \<open>
  The wrapped product differs from the product of the operands by a multiple of \<open>2 ^ N\<close>.
\<close>

lemma sint_eq_iff: "sint (x :: 'a::len word) = sint y \<longleftrightarrow> x = y"
  by (auto intro: signed_word_eqI)

lemma sint_mult_congruent:
  fixes lhs rhs :: "'a::len word"
  shows "2 ^ LENGTH('a) dvd sint (lhs * rhs) - sint lhs * sint rhs"
proof -
  have "(word_of_int (sint (lhs * rhs)) :: 'a word) = word_of_int (sint lhs * sint rhs)"
    by (simp add: wi_hom_syms)
  then have "sint (lhs * rhs) mod 2 ^ LENGTH('a) = (sint lhs * sint rhs) mod 2 ^ LENGTH('a)"
    by (simp only: word_of_int_eq_iff take_bit_eq_mod)
  then show ?thesis
    by (simp only: mod_eq_dvd_iff)
qed

text \<open>
  The division \<open>value/lhs\<close> of the fallback branch: for \<open>lhs = -1\<close> it returns \<open>rhs\<close> unless
  \<open>rhs\<close> is the lowest value; for any other non-zero \<open>lhs\<close> it has a representable
  quotient, which differs from \<open>rhs\<close> exactly when the product is not representable.
\<close>

lemma raw_div_by_minus_one:
  fixes rhs :: "'a::len word"
  assumes "rhs \<noteq> numeric_limits_lowest"
  shows "representable TYPE('a) (sint (- 1 :: 'a word) * sint rhs)"
    and "raw_div ((- 1) * rhs) (- 1) = Inr rhs"
proof -
  have "sint rhs \<noteq> - (2 ^ (LENGTH('a) - 1))"
    using assms sint_eq_iff [of rhs numeric_limits_lowest]
    by (simp add: sint_numeric_limits_lowest)
  with sint_ge [of rhs] sint_lt [of rhs]
  have neg: "representable TYPE('a) (- sint rhs)"
    unfolding representable_def by linarith
  then show "representable TYPE('a) (sint (- 1 :: 'a word) * sint rhs)"
    by simp
  have "(- 1) * rhs = (word_of_int (- sint rhs) :: 'a word)"
    by (simp add: wi_hom_syms)
  with neg have "sint ((- 1) * rhs) = - sint rhs"
    by (simp only: representable_iff)
  then show "raw_div ((- 1) * rhs) (- 1) = Inr rhs"
    by (simp add: raw_div_def representable_sint)
qed

lemma raw_div_product:
  fixes lhs rhs :: "'a::len word"
  assumes "lhs \<noteq> 0" and "lhs \<noteq> - 1"
  shows "\<exists>q. raw_div (lhs * rhs) lhs = Inr q
           \<and> (q \<noteq> rhs \<longleftrightarrow> \<not> representable TYPE('a) (sint lhs * sint rhs))"
proof -
  define M :: int where "M = 2 ^ (LENGTH('a) - 1)"
  define a where "a = sint lhs"
  define b where "b = sint rhs"
  define v where "v = sint (lhs * rhs)"
  define q where "q = v sdiv a"
  have len: "(2 :: int) ^ LENGTH('a) = 2 * M"
    unfolding M_def by (rule two_power_len)
  have M: "0 < M"
    unfolding M_def by simp
  have rep: "representable TYPE('a) r \<longleftrightarrow> - M \<le> r \<and> r < M" for r
    unfolding representable_def M_def ..
  have a: "- M \<le> a" "a < M" and v: "- M \<le> v" "v < M"
    unfolding M_def a_def v_def by (rule sint_ge sint_lt)+
  have a0: "a \<noteq> 0"
    using assms(1) sint_eq_iff [of lhs 0] unfolding a_def by simp
  have a1: "a \<noteq> - 1"
    using assms(2) sint_eq_iff [of lhs "- 1"] unfolding a_def by simp
  have q_rep: "representable TYPE('a) q"
  proof (cases "a = 1")
    case True
    with v show ?thesis
      by (simp add: q_def rep)
  next
    case False
    with a0 a1 have "2 \<le> \<bar>a\<bar>"
      by linarith
    then have "\<bar>q\<bar> \<le> \<bar>v\<bar> div 2"
      unfolding q_def by (rule sdiv_halves)
    moreover have "\<bar>v\<bar> div 2 < M"
      using v M by linarith
    ultimately show ?thesis
      unfolding rep by linarith
  qed
  then have q: "sint (word_of_int q :: 'a word) = q"
    by (simp only: representable_iff)
  have div: "raw_div (lhs * rhs) lhs = Inr (word_of_int q)"
    using assms(1) q_rep by (simp add: raw_div_def q_def v_def a_def)
  have "(word_of_int q :: 'a word) = rhs \<longleftrightarrow> q = b"
    unfolding b_def by (simp only: sint_eq_iff [symmetric] q)
  also have "q = b \<longleftrightarrow> representable TYPE('a) (a * b)"
  proof
    assume "q = b"
    then have "\<bar>v - a * b\<bar> < \<bar>a\<bar>"
      using sdiv_remainder_small [OF a0, of v] by (simp add: q_def)
    with a have small: "\<bar>v - a * b\<bar> < 2 * M"
      by linarith
    have "2 * M dvd v - a * b"
      unfolding v_def a_def b_def len [symmetric] by (rule sint_mult_congruent)
    with small have "v - a * b = 0"
      using zdvd_imp_le [of "2 * M" "\<bar>v - a * b\<bar>"] by (cases "v - a * b = 0") auto
    with v show "representable TYPE('a) (a * b)"
      by (simp add: rep)
  next
    assume "representable TYPE('a) (a * b)"
    then have "sint (word_of_int (a * b) :: 'a word) = a * b"
      by (simp only: representable_iff)
    moreover have "(word_of_int (a * b) :: 'a word) = lhs * rhs"
      by (simp add: a_def b_def wi_hom_syms)
    ultimately have "v = a * b"
      by (simp add: v_def)
    then show "q = b"
      using a0 by (simp add: q_def sdiv_mult_cancel)
  qed
  finally have "(word_of_int q :: 'a word) \<noteq> rhs \<longleftrightarrow> \<not> representable TYPE('a) (a * b)"
    by simp
  with div show ?thesis
    unfolding a_def b_def by blast
qed

lemma minus_numeric_limits_lowest:
  "- (numeric_limits_lowest :: 'a::len word) = numeric_limits_lowest"
proof -
  have "(2 :: int) ^ LENGTH('a) dvd 2 ^ (LENGTH('a) - 1) - - (2 ^ (LENGTH('a) - 1))"
    by (simp add: two_power_len)
  then have "(word_of_int (2 ^ (LENGTH('a) - 1)) :: 'a word)
      = word_of_int (- (2 ^ (LENGTH('a) - 1)))"
    by (simp only: word_of_int_eq_iff take_bit_eq_mod mod_eq_dvd_iff)
  then show ?thesis
    by (simp add: numeric_limits_lowest_def wi_hom_syms)
qed

text \<open>
  Both branches of \<open>overflowing_mul\<close>, for all operands. The intrinsic branch returns the
  wrapped product and sets the flag exactly when the product is not representable. The
  fallback branch does the same for every pair of operands but one: for \<open>lhs = -1\<close> and
  \<open>rhs\<close> the lowest value it has no defined result.
\<close>

lemma overflowing_mul_builtin:
  fixes lhs rhs :: "'a::len word"
  shows "overflowing_mul True lhs rhs =
     Inr \<lparr>res_value = wrapping_mul lhs rhs,
          overflowed = (\<not> representable TYPE('a) (sint lhs * sint rhs))\<rparr>"
  by (simp add: overflowing_mul_def builtin_mul_overflow_def wrapping_mul_eq wi_hom_syms)

lemma overflowing_mul_fallback:
  fixes lhs rhs :: "'a::len word"
  shows "overflowing_mul False lhs rhs =
     (if lhs = - 1 \<and> rhs = numeric_limits_lowest then Inl Undefined_Behaviour
      else Inr \<lparr>res_value = wrapping_mul lhs rhs,
                overflowed = (\<not> representable TYPE('a) (sint lhs * sint rhs))\<rparr>)"
proof -
  consider "lhs = 0" | "lhs = - 1" "rhs = numeric_limits_lowest"
    | "lhs = - 1" "rhs \<noteq> numeric_limits_lowest" | "lhs \<noteq> 0" "lhs \<noteq> - 1"
    by blast
  then show ?thesis
  proof cases
    case 1
    then show ?thesis
      by (simp add: overflowing_mul_def wrapping_mul_eq representable_def)
  next
    case 2
    then show ?thesis
      by (simp add: overflowing_mul_def wrapping_mul_eq minus_numeric_limits_lowest
          raw_div_lowest_minus_one)
  next
    case 3
    then show ?thesis
      using raw_div_by_minus_one [of rhs]
      by (simp add: overflowing_mul_def wrapping_mul_eq)
  next
    case 4
    then obtain q where "raw_div (lhs * rhs) lhs = Inr q"
      and "q \<noteq> rhs \<longleftrightarrow> \<not> representable TYPE('a) (sint lhs * sint rhs)"
      using raw_div_product [of lhs rhs] by blast
    with 4 show ?thesis
      by (simp add: overflowing_mul_def wrapping_mul_eq)
  qed
qed

text \<open>
  Claim C2, at the operands \<open>-1\<close> and the lowest value of \<open>int\<close>. Their product \<open>2 ^ 31\<close> is
  not representable, so the claim asks for the wrapped product with the flag set. The
  intrinsic branch of \<open>overflowing_mul\<close> returns that. The fallback branch divides the
  wrapped product, which is the lowest value, by \<open>-1\<close>: the division has no defined
  result, and neither has \<open>overflowing_mul\<close>. Under the failing policy \<open>checked_mul\<close>
  therefore reports the overflow with the intrinsic only.
\<close>

theorem overflowing_mul_fallback_minus_one_lowest:
  "overflowing_mul False (- 1) (- 2147483648 :: 32 word) = Inl Undefined_Behaviour
   \<and> overflowing_mul True (- 1) (- 2147483648 :: 32 word)
       = Inr \<lparr>res_value = - 2147483648, overflowed = True\<rparr>
   \<and> \<not> representable TYPE(32) (sint (- 1 :: 32 word) * sint (- 2147483648 :: 32 word))
   \<and> checked_mul (fail_config False) (- 1) (- 2147483648 :: 32 word)
         (Source_Location ''test_default_ops.cpp'' 601)
       = Inl Undefined_Behaviour
   \<and> checked_mul (fail_config True) (- 1) (- 2147483648 :: 32 word)
         (Source_Location ''test_default_ops.cpp'' 601)
       = Inl (Unrecoverable_Error ''signed overflow in multiplication''
           (Source_Location ''test_default_ops.cpp'' 601))"
  by (simp add: overflowing_mul_def wrapping_mul_eq raw_div_def builtin_mul_overflow_def
      representable_def signed_divide_int_def checked_mul_def runtime_error_def)

text \<open>
  Claim C10, at the same operands. In the fallback branch of \<open>overflowing_mul\<close> with
  \<open>lhs = -1\<close>, which is not zero, and \<open>rhs\<close> the lowest value, the dividend of
  \<open>value/lhs\<close> is the lowest value and the divisor is \<open>-1\<close>: the quotient is not
  representable and the division overflows.
\<close>

theorem overflowing_mul_fallback_divides_lowest_by_minus_one:
  "(- 1 :: 32 word) \<noteq> 0
   \<and> wrapping_mul (- 1) (numeric_limits_lowest :: 32 word) = numeric_limits_lowest
   \<and> raw_div (wrapping_mul (- 1) (numeric_limits_lowest :: 32 word)) (- 1)
       = Inl Undefined_Behaviour
   \<and> \<not> representable TYPE(32)
         (sint (wrapping_mul (- 1) (numeric_limits_lowest :: 32 word)) sdiv sint (- 1 :: 32 word))"
  by (simp add: wrapping_mul_eq numeric_limits_lowest_def raw_div_def representable_def
      signed_divide_int_def)

end
